theory Spec2Isabelle
  imports Main "HOL-Library.Sublist" "HOL-Library.Multiset"
begin

section \<open>Strings\<close>

text \<open>
  A JavaScript string is modelled as a \<^typ>\<open>string\<close>: the list of its code units, for
  texts whose code units lie below 256 (ASCII and the Latin-1 block). The character
  classes and the case mapping below are those of ECMAScript restricted to that range.
\<close>

text \<open>\<^verbatim>\<open>String.prototype.toLowerCase\<close>, one code unit at a time: \<open>A\<close>-\<open>Z\<close> and the
  Latin-1 capitals (192-222 except the multiplication sign 215) move up by 32.\<close>

definition toLowerCase_char :: "char \<Rightarrow> char" where
  "toLowerCase_char c =
     (let n = (of_char c :: nat)
      in if (65 \<le> n \<and> n \<le> 90) \<or> (192 \<le> n \<and> n \<le> 222 \<and> n \<noteq> 215)
         then char_of (n + 32) else c)"

definition toLowerCase :: "string \<Rightarrow> string" where
  "toLowerCase s = map toLowerCase_char s"

text \<open>\<^verbatim>\<open>s.includes(k)\<close>: \<open>k\<close> occurs in \<open>s\<close> as a contiguous run.\<close>

fun str_includes :: "string \<Rightarrow> string \<Rightarrow> bool" where
  "str_includes [] k = (k = [])"
| "str_includes (c # cs) k = (take (length k) (c # cs) = k \<or> str_includes cs k)"

text \<open>\<^verbatim>\<open>xs.slice(start)\<close> of arrays and strings: a negative \<open>start\<close> counts from the
  end, and both directions are clamped to the bounds.\<close>

definition slice_from :: "int \<Rightarrow> 'a list \<Rightarrow> 'a list" where
  "slice_from start xs =
     (let len = int (length xs);
          k = (if start < 0 then max (len + start) 0 else min start len)
      in drop (nat k) xs)"

text \<open>\<^verbatim>\<open>xs.slice(0, end)\<close> for the calls of the source, whose first argument is 0.\<close>

definition slice_to :: "int \<Rightarrow> 'a list \<Rightarrow> 'a list" where
  "slice_to end xs =
     (let len = int (length xs);
          k = (if end < 0 then max (len + end) 0 else min end len)
      in take (nat k) xs)"

text \<open>\<^verbatim>\<open>s.substr(start, length)\<close> for a start that is not negative.\<close>

definition substr :: "nat \<Rightarrow> nat \<Rightarrow> string \<Rightarrow> string" where
  "substr start len s = take len (drop start s)"

section \<open>Data model (types.ts)\<close>

datatype LogLevel = INFO | WARN | CRIT | SYS

text \<open>\<^verbatim>\<open>Omit<LogMessage, 'id' | 'timestamp'>\<close>, the parser's result, and its extension
  \<^verbatim>\<open>LogMessage\<close>. The field \<^verbatim>\<open>id\<close> is named \<open>id_str\<close> (\<open>id\<close> is the identity of HOL).\<close>

record ParsedLog =
  system :: string
  message :: string
  level :: LogLevel

record LogMessage = ParsedLog +
  id_str :: string
  timestamp :: string

section \<open>The log parser (parseLogString)\<close>

text \<open>
  The regular expression is \<^verbatim>\<open>/^\[([A-Z0-9_ ]+)\]\s*(.*)/\<close>. The class of the tag is
  \<open>tag_char\<close>; \<^verbatim>\<open>\s\<close> is \<open>white_space\<close> (tab, line feed, vertical tab, form feed,
  carriage return, space, no-break space); \<^verbatim>\<open>.\<close> is every code unit but a line
  terminator (line feed, carriage return).
\<close>

definition tag_char :: "char \<Rightarrow> bool" where
  "tag_char c =
     (let n = (of_char c :: nat)
      in (65 \<le> n \<and> n \<le> 90) \<or> (48 \<le> n \<and> n \<le> 57) \<or> c = CHR ''_'' \<or> c = CHR '' '')"

definition white_space :: "char \<Rightarrow> bool" where
  "white_space c =
     (let n = (of_char c :: nat) in (9 \<le> n \<and> n \<le> 13) \<or> n = 32 \<or> n = 160)"

definition line_terminator :: "char \<Rightarrow> bool" where
  "line_terminator c = (c = CHR 0x0A \<or> c = CHR 0x0D)"

text \<open>
  \<^verbatim>\<open>raw.match(...)\<close>: \<open>None\<close> is \<^verbatim>\<open>null\<close>, \<open>Some (m1, m2)\<close> the two groups.
  The pattern is anchored at the start. The greedy tag class takes the longest run of
  tag characters; a shorter run would be followed by a tag character, never by
  \<^verbatim>\<open>]\<close>, so backtracking finds nothing else. After the bracket \<^verbatim>\<open>\s*\<close> takes all
  leading white space and \<^verbatim>\<open>(.*)\<close> the rest of that line; neither can fail.
\<close>

definition log_match :: "string \<Rightarrow> (string \<times> string) option" where
  "log_match raw =
     (case raw of
        [] \<Rightarrow> None
      | c # cs \<Rightarrow>
          if c \<noteq> CHR ''['' then None
          else let tag = takeWhile tag_char cs; rest = dropWhile tag_char cs
               in if tag = [] then None
                  else (case rest of
                          [] \<Rightarrow> None
                        | d # ds \<Rightarrow>
                            if d \<noteq> CHR '']'' then None
                            else Some (tag, takeWhile (\<lambda>x. \<not> line_terminator x)
                                              (dropWhile white_space ds))))"

text \<open>The two keyword tests of lines 28 and 29.\<close>

definition crit_keyword :: "string \<Rightarrow> bool" where
  "crit_keyword msg =
     (str_includes (toLowerCase msg) ''critical'' \<or> str_includes (toLowerCase msg) ''fail''
      \<or> str_includes (toLowerCase msg) ''error'')"

definition warn_keyword :: "string \<Rightarrow> bool" where
  "warn_keyword msg =
     (str_includes (toLowerCase msg) ''warning'' \<or> str_includes (toLowerCase msg) ''detect'')"

definition parseLogString :: "string \<Rightarrow> ParsedLog" where
  "parseLogString raw =
     (case log_match raw of
        Some (sys, msg) \<Rightarrow>
          \<lparr>system = sys, message = msg,
           level = (if crit_keyword msg then CRIT
                    else if warn_keyword msg then WARN
                    else if sys = ''SYS'' then SYS
                    else INFO)\<rparr>
      | None \<Rightarrow> \<lparr>system = ''UNK'', message = raw, level = INFO\<rparr>)"

section \<open>The bounded display log\<close>

definition MAX_LOGS :: int where
  "MAX_LOGS = 50"

text \<open>The updater passed to \<^verbatim>\<open>setLogs\<close> in the tick (lines 150-153).\<close>

definition setLogs_append :: "LogMessage list \<Rightarrow> LogMessage \<Rightarrow> LogMessage list" where
  "setLogs_append prev newLog = (let updated = prev @ [newLog] in slice_from (- MAX_LOGS) updated)"

section \<open>JSON texts\<close>

text \<open>
  \<^verbatim>\<open>JSON.parse\<close> is a built-in of the language. Its model follows the JSON grammar of
  ECMA-404: a lexer that reads one code unit at a time, then a parser that keeps the open
  arrays and objects on a stack. \<open>None\<close> is the \<^verbatim>\<open>SyntaxError\<close> the built-in throws.
  A number keeps its lexeme; an object keeps its members as the text lists them,
  repeated keys included (the built-in keeps the last value of a repeated key). An
  escape \<^verbatim>\<open>\uXXXX\<close> is decoded when it denotes a code unit below 256, the alphabet of
  this model; texts with a larger escape are outside the model (it answers \<open>None\<close> there).
\<close>

datatype json =
    JNull
  | JBool bool
  | JNumber string
  | JString string
  | JArray "json list"
  | JObject "(string \<times> json) list"

datatype token = TOpenArr | TCloseArr | TOpenObj | TCloseObj | TComma | TColon | TLit json

datatype num_state = NMinus | NZero | NInt | NDot | NFrac | NExp | NExpSign | NExpDigits

datatype lex_state =
    LIdle
  | LWord string json
  | LNum num_state string
  | LStr string
  | LEsc string
  | LUni string nat nat

definition is_digit :: "char \<Rightarrow> bool" where
  "is_digit c = (let n = (of_char c :: nat) in 48 \<le> n \<and> n \<le> 57)"

definition hex_val :: "char \<Rightarrow> nat option" where
  "hex_val c =
     (let n = (of_char c :: nat)
      in if 48 \<le> n \<and> n \<le> 57 then Some (n - 48)
         else if 65 \<le> n \<and> n \<le> 70 then Some (n - 55)
         else if 97 \<le> n \<and> n \<le> 102 then Some (n - 87)
         else None)"

definition num_step :: "num_state \<Rightarrow> char \<Rightarrow> num_state option" where
  "num_step q c =
     (case q of
        NMinus \<Rightarrow> if c = CHR ''0'' then Some NZero else if is_digit c then Some NInt else None
      | NZero \<Rightarrow> if c = CHR ''.'' then Some NDot
                 else if c = CHR ''e'' \<or> c = CHR ''E'' then Some NExp else None
      | NInt \<Rightarrow> if is_digit c then Some NInt
                else if c = CHR ''.'' then Some NDot
                else if c = CHR ''e'' \<or> c = CHR ''E'' then Some NExp else None
      | NDot \<Rightarrow> if is_digit c then Some NFrac else None
      | NFrac \<Rightarrow> if is_digit c then Some NFrac
                 else if c = CHR ''e'' \<or> c = CHR ''E'' then Some NExp else None
      | NExp \<Rightarrow> if c = CHR ''+'' \<or> c = CHR ''-'' then Some NExpSign
                else if is_digit c then Some NExpDigits else None
      | NExpSign \<Rightarrow> if is_digit c then Some NExpDigits else None
      | NExpDigits \<Rightarrow> if is_digit c then Some NExpDigits else None)"

definition num_final :: "num_state \<Rightarrow> bool" where
  "num_final q = (q = NZero \<or> q = NInt \<or> q = NFrac \<or> q = NExpDigits)"

text \<open>A code unit met between tokens. The token list is kept in reverse.\<close>

definition lex_idle :: "char \<Rightarrow> token list \<Rightarrow> (lex_state \<times> token list) option" where
  "lex_idle c ts =
     (if c = CHR '' '' \<or> c = CHR 0x09 \<or> c = CHR 0x0A \<or> c = CHR 0x0D then Some (LIdle, ts)
      else if c = CHR ''['' then Some (LIdle, TOpenArr # ts)
      else if c = CHR '']'' then Some (LIdle, TCloseArr # ts)
      else if c = CHR ''{'' then Some (LIdle, TOpenObj # ts)
      else if c = CHR ''}'' then Some (LIdle, TCloseObj # ts)
      else if c = CHR '','' then Some (LIdle, TComma # ts)
      else if c = CHR '':'' then Some (LIdle, TColon # ts)
      else if c = CHR 0x22 then Some (LStr [], ts)
      else if c = CHR ''-'' then Some (LNum NMinus [c], ts)
      else if c = CHR ''0'' then Some (LNum NZero [c], ts)
      else if is_digit c then Some (LNum NInt [c], ts)
      else if c = CHR ''t'' then Some (LWord ''rue'' (JBool True), ts)
      else if c = CHR ''f'' then Some (LWord ''alse'' (JBool False), ts)
      else if c = CHR ''n'' then Some (LWord ''ull'' JNull, ts)
      else None)"

definition lex_escape :: "char \<Rightarrow> char option" where
  "lex_escape c =
     (if c = CHR 0x22 \<or> c = CHR 0x5C \<or> c = CHR ''/'' then Some c
      else if c = CHR ''b'' then Some (CHR 0x08)
      else if c = CHR ''f'' then Some (CHR 0x0C)
      else if c = CHR ''n'' then Some (CHR 0x0A)
      else if c = CHR ''r'' then Some (CHR 0x0D)
      else if c = CHR ''t'' then Some (CHR 0x09)
      else None)"

definition lex_step :: "lex_state \<Rightarrow> token list \<Rightarrow> char \<Rightarrow> (lex_state \<times> token list) option" where
  "lex_step st ts c =
     (case st of
        LIdle \<Rightarrow> lex_idle c ts
      | LWord w v \<Rightarrow>
          (case w of
             [] \<Rightarrow> None
           | x # xs \<Rightarrow>
               if c \<noteq> x then None
               else if xs = [] then Some (LIdle, TLit v # ts)
               else Some (LWord xs v, ts))
      | LNum q acc \<Rightarrow>
          (case num_step q c of
             Some q' \<Rightarrow> Some (LNum q' (c # acc), ts)
           | None \<Rightarrow> if num_final q then lex_idle c (TLit (JNumber (rev acc)) # ts) else None)
      | LStr acc \<Rightarrow>
          if c = CHR 0x22 then Some (LIdle, TLit (JString (rev acc)) # ts)
          else if c = CHR 0x5C then Some (LEsc acc, ts)
          else if (of_char c :: nat) < 32 then None
          else Some (LStr (c # acc), ts)
      | LEsc acc \<Rightarrow>
          if c = CHR ''u'' then Some (LUni acc 0 0, ts)
          else (case lex_escape c of None \<Rightarrow> None | Some e \<Rightarrow> Some (LStr (e # acc), ts))
      | LUni acc k n \<Rightarrow>
          (case hex_val c of
             None \<Rightarrow> None
           | Some d \<Rightarrow>
               if k < 3 then Some (LUni acc (Suc k) (16 * n + d), ts)
               else if 16 * n + d < 256 then Some (LStr (char_of (16 * n + d) # acc), ts)
               else None))"

fun lex :: "lex_state \<Rightarrow> token list \<Rightarrow> string \<Rightarrow> token list option" where
  "lex st ts [] =
     (case st of
        LIdle \<Rightarrow> Some (rev ts)
      | LNum q acc \<Rightarrow> if num_final q then Some (rev (TLit (JNumber (rev acc)) # ts)) else None
      | _ \<Rightarrow> None)"
| "lex st ts (c # cs) =
     (case lex_step st ts c of None \<Rightarrow> None | Some (st', ts') \<Rightarrow> lex st' ts' cs)"

text \<open>
  The parser's stack: an open array with its elements so far, an open object with its
  members so far and the key whose value is awaited (both lists in reverse).
\<close>

datatype frame = FArr "json list" | FObj "(string \<times> json) list" string

datatype parse_state = PValue | PFirst | PKeyFirst | PKey | PColon | PAfter | PDone json

definition put :: "json \<Rightarrow> frame list \<Rightarrow> parse_state \<times> frame list" where
  "put v fs =
     (case fs of
        [] \<Rightarrow> (PDone v, [])
      | FArr es # fs' \<Rightarrow> (PAfter, FArr (v # es) # fs')
      | FObj ms k # fs' \<Rightarrow> (PAfter, FObj ((k, v) # ms) k # fs'))"

definition close_arr :: "frame list \<Rightarrow> (parse_state \<times> frame list) option" where
  "close_arr fs = (case fs of FArr es # fs' \<Rightarrow> Some (put (JArray (rev es)) fs') | _ \<Rightarrow> None)"

definition close_obj :: "frame list \<Rightarrow> (parse_state \<times> frame list) option" where
  "close_obj fs = (case fs of FObj ms k # fs' \<Rightarrow> Some (put (JObject (rev ms)) fs') | _ \<Rightarrow> None)"

definition parse_value :: "bool \<Rightarrow> frame list \<Rightarrow> token \<Rightarrow> (parse_state \<times> frame list) option" where
  "parse_value first fs t =
     (case t of
        TLit v \<Rightarrow> Some (put v fs)
      | TOpenArr \<Rightarrow> Some (PFirst, FArr [] # fs)
      | TOpenObj \<Rightarrow> Some (PKeyFirst, FObj [] [] # fs)
      | TCloseArr \<Rightarrow> if first then close_arr fs else None
      | _ \<Rightarrow> None)"

definition parse_key :: "bool \<Rightarrow> frame list \<Rightarrow> token \<Rightarrow> (parse_state \<times> frame list) option" where
  "parse_key first fs t =
     (case t of
        TLit (JString k) \<Rightarrow>
          (case fs of FObj ms _ # fs' \<Rightarrow> Some (PColon, FObj ms k # fs') | _ \<Rightarrow> None)
      | TCloseObj \<Rightarrow> if first then close_obj fs else None
      | _ \<Rightarrow> None)"

definition parse_step :: "parse_state \<Rightarrow> frame list \<Rightarrow> token \<Rightarrow> (parse_state \<times> frame list) option" where
  "parse_step st fs t =
     (case st of
        PValue \<Rightarrow> parse_value False fs t
      | PFirst \<Rightarrow> parse_value True fs t
      | PKeyFirst \<Rightarrow> parse_key True fs t
      | PKey \<Rightarrow> parse_key False fs t
      | PColon \<Rightarrow> (case t of TColon \<Rightarrow> Some (PValue, fs) | _ \<Rightarrow> None)
      | PAfter \<Rightarrow>
          (case t of
             TComma \<Rightarrow>
               (case fs of
                  FArr _ # _ \<Rightarrow> Some (PValue, fs)
                | FObj _ _ # _ \<Rightarrow> Some (PKey, fs)
                | [] \<Rightarrow> None)
           | TCloseArr \<Rightarrow> close_arr fs
           | TCloseObj \<Rightarrow> close_obj fs
           | _ \<Rightarrow> None)
      | PDone _ \<Rightarrow> None)"

fun parse_tokens :: "parse_state \<Rightarrow> frame list \<Rightarrow> token list \<Rightarrow> json option" where
  "parse_tokens st fs [] = (case st of PDone v \<Rightarrow> Some v | _ \<Rightarrow> None)"
| "parse_tokens st fs (t # ts) =
     (case parse_step st fs t of None \<Rightarrow> None | Some (st', fs') \<Rightarrow> parse_tokens st' fs' ts)"

definition JSON_parse :: "string \<Rightarrow> json option" where
  "JSON_parse s = (case lex LIdle [] s of None \<Rightarrow> None | Some ts \<Rightarrow> parse_tokens PValue [] ts)"

section \<open>The text source adapter (services/geminiService.ts)\<close>

text \<open>\<^verbatim>\<open>s.indexOf(c)\<close> and \<^verbatim>\<open>s.lastIndexOf(c)\<close> for a single character: \<open>-1\<close> when
  it does not occur.\<close>

definition indexOf :: "char \<Rightarrow> string \<Rightarrow> int" where
  "indexOf c s = (if c \<in> set s then int (length (takeWhile (\<lambda>x. x \<noteq> c) s)) else - 1)"

definition lastIndexOf :: "char \<Rightarrow> string \<Rightarrow> int" where
  "lastIndexOf c s =
     (if c \<in> set s then int (length s) - 1 - int (length (takeWhile (\<lambda>x. x \<noteq> c) (rev s)))
      else - 1)"

text \<open>\<^verbatim>\<open>s.substring(a, b)\<close>: both indices are clamped to the string and swapped when
  the first is the larger.\<close>

definition substring :: "int \<Rightarrow> int \<Rightarrow> string \<Rightarrow> string" where
  "substring a b s =
     (let len = int (length s);
          a' = min (max a 0) len;
          b' = min (max b 0) len;
          lo = min a' b';
          hi = max a' b'
      in take (nat (hi - lo)) (drop (nat lo) s))"

text \<open>\<^verbatim>\<open>xs.join(sep)\<close>.\<close>

fun join :: "string \<Rightarrow> string list \<Rightarrow> string" where
  "join sep [] = []"
| "join sep [x] = x"
| "join sep (x # y # ys) = x @ sep @ join sep (y # ys)"

text \<open>Lines 73-78: cut the response down to the span from its first \<^verbatim>\<open>[\<close> to its last
  \<^verbatim>\<open>]\<close>, when it has both.\<close>

definition sanitize :: "string \<Rightarrow> string" where
  "sanitize jsonText =
     (let firstBracket = indexOf (CHR ''['') jsonText;
          lastBracket = lastIndexOf (CHR '']'') jsonText
      in if firstBracket \<noteq> - 1 \<and> lastBracket \<noteq> - 1
         then substring firstBracket (lastBracket + 1) jsonText
         else jsonText)"

text \<open>
  The value a failed call throws is typed \<^verbatim>\<open>any\<close>, and the catch block looks at it only
  through \<^verbatim>\<open>JSON.stringify(error)\<close> (line 92). So the value is modelled by what that
  call does with it: it returns a text (\<open>Text\<close>); it returns \<^verbatim>\<open>undefined\<close>, as for the
  value \<^verbatim>\<open>undefined\<close> or a function (\<open>Undefined\<close>); or it throws a \<^verbatim>\<open>TypeError\<close>, as for
  an object that refers to itself (\<open>Throws\<close>).
\<close>

datatype stringified = Text string | Undefined | Throws

text \<open>
  What awaiting \<^verbatim>\<open>ai.models.generateContent\<close> gives: the promise resolves with a response
  whose \<^verbatim>\<open>text\<close> is a string or \<^verbatim>\<open>undefined\<close> (\<open>None\<close>), or it rejects with a thrown
  value.
\<close>

datatype service_response = Resolved "string option" | Rejected stringified

text \<open>
  The errors that leave the catch block of lines 88-105, where nothing catches them: the
  \<^verbatim>\<open>TypeError\<close> of \<^verbatim>\<open>JSON.stringify\<close> (line 92), and the \<^verbatim>\<open>TypeError\<close> of calling
  \<^verbatim>\<open>includes\<close> on \<^verbatim>\<open>undefined\<close> (line 93). With either the promise of
  \<^verbatim>\<open>generateStatusBatch\<close> rejects.
\<close>

datatype js_error = StringifyTypeError | IncludesTypeError

text \<open>
  The surroundings of one call. \<open>API_KEY\<close> is \<^verbatim>\<open>process.env.API_KEY\<close>. The seed corpus
  \<open>SEED_MESSAGES\<close> is a constant of \<^verbatim>\<open>constants.ts\<close>, a parameter here. The two sorts by
  a random comparator (line 38, in place on the corpus; lines 97-98, on a copy) leave the
  array in an order chosen by the engine and the random draws: \<open>seedShuffle\<close> and
  \<open>fallbackShuffle\<close> are those two arrays after sorting, each a rearrangement of the
  corpus.
\<close>

record adapter_env =
  API_KEY :: "string option"
  SEED_MESSAGES :: "string list"
  seedShuffle :: "string list"
  fallbackShuffle :: "string list"
  response :: service_response

text \<open>Line 4: \<^verbatim>\<open>process.env.API_KEY || ""\<close>.\<close>

definition apiKey :: "adapter_env \<Rightarrow> string" where
  "apiKey env = (case API_KEY env of None \<Rightarrow> [] | Some k \<Rightarrow> k)"

text \<open>The result \<^verbatim>\<open>{ logs, error }\<close>. \<^verbatim>\<open>JSON.parse(jsonText) as string[]\<close> is an unchecked
  cast, so \<open>logs\<close> is whatever JSON value the parser returned.\<close>

record batch =
  logs :: json
  error :: bool

text \<open>A request sent to the service: the three values the prompt of lines 40-51
  interpolates into its fixed wording.\<close>

record request =
  seedSample :: string
  recentExamples :: string
  wanted :: int

text \<open>The test of line 93 on \<^verbatim>\<open>JSON.stringify(error)\<close>.\<close>

definition rate_limited :: "string \<Rightarrow> bool" where
  "rate_limited errorMessage =
     (str_includes errorMessage ''429'' \<or> str_includes errorMessage ''RESOURCE_EXHAUSTED'')"

text \<open>
  \<^verbatim>\<open>generateStatusBatch(currentContext, count)\<close> gives how its promise settles, with the
  batch it resolves with (\<open>Inr\<close>) or the error it rejects with (\<open>Inl\<close>), and the requests
  that went out to the service on the way.
\<close>

definition generateStatusBatch ::
    "adapter_env \<Rightarrow> string list \<Rightarrow> int \<Rightarrow> (js_error + batch) \<times> request list" where
  "generateStatusBatch env currentContext cnt =
     (if apiKey env = [] then
        (Inr \<lparr>logs = JArray [JString ''[SYS] API KEY MISSING. PLEASE CONFIGURE SleighOS ENV.'',
                             JString ''[ERR] MAGIC FLUX DISCONNECTED.''],
              error = True\<rparr>, [])
      else
        let recentExamples' = join [CHR 0x0A] (slice_from (- 10) currentContext);
            seedSample' = join [CHR 0x0A] (slice_to 5 (seedShuffle env));
            sent = [\<lparr>seedSample = seedSample', recentExamples = recentExamples', wanted = cnt\<rparr>]
        in (case response env of
              Resolved txt \<Rightarrow>
                (case txt of
                   None \<Rightarrow> (Inr \<lparr>logs = JArray [], error = False\<rparr>, sent)
                 | Some jsonText \<Rightarrow>
                     if jsonText = [] then (Inr \<lparr>logs = JArray [], error = False\<rparr>, sent)
                     else (case JSON_parse (sanitize jsonText) of
                             Some v \<Rightarrow> (Inr \<lparr>logs = v, error = False\<rparr>, sent)
                           | None \<Rightarrow>
                               (Inr \<lparr>logs = JArray [JString ''[WARN] DATA PARSING ERROR. RECALIBRATING...''],
                                     error = True\<rparr>, sent)))
            | Rejected thrown \<Rightarrow>
                (case thrown of
                   Throws \<Rightarrow> (Inl StringifyTypeError, sent)
                 | Undefined \<Rightarrow> (Inl IncludesTypeError, sent)
                 | Text errorMessage \<Rightarrow>
                     if rate_limited errorMessage
                     then (Inr \<lparr>logs = JArray (map JString (slice_to cnt (fallbackShuffle env))),
                                error = True\<rparr>, sent)
                     else (Inr \<lparr>logs = JArray [JString ''[ERR] INTERFERENCE DETECTED IN SECTOR 12. RETRYING...''],
                                error = True\<rparr>, sent))))"

section \<open>The stream scheduler (App)\<close>

text \<open>
  The component's state. \<open>logs_state\<close> (\<^verbatim>\<open>logs\<close> in the source), \<open>isRunning\<close>, \<open>buffer\<close>,
  \<open>isLoading\<close> and \<open>aiError\<close> are React state, written by their setters; the others are
  refs. The setters' updates are applied here at once and in call order, which is the
  order React applies its queue in; callbacks never read the state itself, only the
  refs. A ref follows its state only when the effects of lines 64-66 run, that is when
  React has rendered again, after the callback that called the setter has returned:
  that is \<open>sync_refs\<close>.

  \<open>awaiting\<close> holds the fetch cycles suspended at the \<^verbatim>\<open>await\<close> of line 110, each with
  the context it passed to the adapter: the fetch cycles in flight. \<open>timeoutRef\<close> says
  whether a timer for the next tick has been set.
\<close>

record app_state =
  logs_state :: "LogMessage list"
  isRunning :: bool
  buffer :: "string list"
  isLoading :: bool
  aiError :: bool
  logsRef :: "LogMessage list"
  bufferRef :: "string list"
  isLoadingRef :: bool
  timeoutRef :: bool
  useGeminiNext :: bool
  awaiting :: "string list list"

definition sync_refs :: "app_state \<Rightarrow> app_state" where
  "sync_refs s = s\<lparr>logsRef := logs_state s, bufferRef := buffer s, isLoadingRef := isLoading s\<rparr>"

text \<open>
  \<^verbatim>\<open>fetchMoreLogs\<close> up to its \<^verbatim>\<open>await\<close> (live turn) or to its end (seed turn).
  \<open>randomMsg\<close> is the line that line 117 draws from the seed corpus.
\<close>

definition fetchMoreLogs :: "string \<Rightarrow> app_state \<Rightarrow> app_state" where
  "fetchMoreLogs randomMsg s =
     (if isLoadingRef s then s
      else
        let s1 = s\<lparr>isLoading := True\<rparr>
        in if useGeminiNext s1 then
             let currentMessages =
                   map (\<lambda>l. ''['' @ system l @ ''] '' @ message l) (slice_from (- 5) (logsRef s1))
             in s1\<lparr>awaiting := awaiting s1 @ [currentMessages]\<rparr>
           else
             s1\<lparr>buffer := buffer s1 @ [randomMsg],
                useGeminiNext := \<not> useGeminiNext s1,
                isLoading := False\<rparr>)"

text \<open>
  The rest of \<^verbatim>\<open>fetchMoreLogs\<close> (lines 112-125), run when the adapter's promise of the
  \<open>i\<close>-th suspended cycle resolves with \<^verbatim>\<open>{ logs: newRawLogs, error }\<close>, read at its declared
  type \<^verbatim>\<open>string[]\<close>.
\<close>

definition fetchMoreLogs_resume :: "nat \<Rightarrow> string list \<Rightarrow> bool \<Rightarrow> app_state \<Rightarrow> app_state" where
  "fetchMoreLogs_resume i newRawLogs err s =
     (if i < length (awaiting s) then
        s\<lparr>awaiting := take i (awaiting s) @ drop (Suc i) (awaiting s),
          aiError := err,
          buffer := buffer s @ newRawLogs,
          useGeminiNext := \<not> useGeminiNext s,
          isLoading := False\<rparr>
      else s)"

text \<open>
  When the adapter's promise of the \<open>i\<close>-th suspended cycle rejects instead, the
  \<^verbatim>\<open>await\<close> of line 110 throws inside \<^verbatim>\<open>fetchMoreLogs\<close>, which has no handler: the cycle
  ends there and lines 112-125 do not run.
\<close>

definition fetchMoreLogs_rejected :: "nat \<Rightarrow> app_state \<Rightarrow> app_state" where
  "fetchMoreLogs_rejected i s =
     (if i < length (awaiting s) then
        s\<lparr>awaiting := take i (awaiting s) @ drop (Suc i) (awaiting s)\<rparr>
      else s)"

text \<open>
  What one tick draws from its surroundings: \<open>random36\<close> is
  \<^verbatim>\<open>Math.random().toString(36)\<close> of line 145, \<open>now\<close> is \<^verbatim>\<open>getTimestamp()\<close>, and
  \<open>randomMsg1\<close>, \<open>randomMsg2\<close> are the seed lines drawn by the tick's first and second
  call of \<^verbatim>\<open>fetchMoreLogs\<close>.
\<close>

record tick_env =
  random36 :: string
  now :: string
  randomMsg1 :: string
  randomMsg2 :: string

definition newLog_of :: "tick_env \<Rightarrow> string \<Rightarrow> LogMessage" where
  "newLog_of e nextRaw =
     (let parsed = parseLogString nextRaw
      in \<lparr>system = system parsed, message = message parsed, level = level parsed,
          id_str = substr 2 9 (random36 e), timestamp = now e\<rparr>)"

definition processNextMessage :: "tick_env \<Rightarrow> app_state \<Rightarrow> app_state" where
  "processNextMessage e s =
     (if \<not> isRunning s then s
      else
        let currentBufferLen = length (bufferRef s);
            (s1, currentBufferLen1) =
              (if currentBufferLen > 0 then
                 let nextRaw = hd (bufferRef s);
                     newBuffer = slice_from 1 (bufferRef s);
                     newLog = newLog_of e nextRaw
                 in (s\<lparr>buffer := newBuffer,
                       logs_state := setLogs_append (logs_state s) newLog\<rparr>,
                     length newBuffer)
               else (fetchMoreLogs (randomMsg1 e) s, currentBufferLen));
            s2 = (if currentBufferLen1 < 2 \<and> \<not> isLoadingRef s1
                  then fetchMoreLogs (randomMsg2 e) s1 else s1)
        in s2\<lparr>timeoutRef := True\<rparr>)"

text \<open>The initial values of \<^verbatim>\<open>useState\<close> and \<^verbatim>\<open>useRef\<close> (lines 38-61).\<close>

definition initial_state :: app_state where
  "initial_state =
     \<lparr>logs_state = [], isRunning = True, buffer = [], isLoading = False, aiError = False,
      logsRef = [], bufferRef = [], isLoadingRef = False, timeoutRef = False,
      useGeminiNext = True, awaiting = []\<rparr>"

definition initialLogs :: "string \<Rightarrow> string \<Rightarrow> string \<Rightarrow> LogMessage list" where
  "initialLogs t1 t2 t3 =
     [\<lparr>system = ''SYS'', message = ''SleighOS v25.12.24 Boot Sequence Initiated...'', level = SYS,
       id_str = ''init-1'', timestamp = t1\<rparr>,
      \<lparr>system = ''NET'', message = ''Connected to North Pole Command Uplink.'', level = INFO,
       id_str = ''init-2'', timestamp = t2\<rparr>,
      \<lparr>system = ''UAS'', message = ''Drone Swarm pre-flight checks green.'', level = INFO,
       id_str = ''init-3'', timestamp = t3\<rparr>]"

text \<open>
  The effects of the first render, in the order of their declaration: the three ref
  syncs (lines 64-66), the initial seed (lines 69-79: \<^verbatim>\<open>setLogs(initialLogs)\<close>, then
  \<^verbatim>\<open>fetchMoreLogs()\<close>, whose seed draw would be \<open>randomMsg0\<close>), and the consumer loop (lines
  129-178), which runs the first tick at once.
\<close>

definition App_mount :: "string \<Rightarrow> string \<Rightarrow> string \<Rightarrow> string \<Rightarrow> tick_env \<Rightarrow> app_state" where
  "App_mount t1 t2 t3 randomMsg0 e =
     (let s0 = sync_refs initial_state;
          s1 = s0\<lparr>logs_state := initialLogs t1 t2 t3\<rparr>;
          s2 = fetchMoreLogs randomMsg0 s1
      in processNextMessage e s2)"

section \<open>Properties of the parser\<close>

lemma str_includes_sublist: "str_includes s k \<longleftrightarrow> sublist k s"
proof (induction s)
  case Nil
  then show ?case by simp
next
  case (Cons c cs)
  have "take (length k) (c # cs) = k \<longleftrightarrow> prefix k (c # cs)"
    by (metis append_eq_conv_conj prefix_def)
  with Cons show ?case
    by (simp add: sublist_Cons_right)
qed

lemma close_bracket_no_tag_char: "\<not> tag_char (CHR '']'')"
  by (simp add: tag_char_def)

lemma log_match_None_iff:
  "log_match raw = None \<longleftrightarrow>
     (\<nexists>tag rest. tag \<noteq> [] \<and> list_all tag_char tag \<and> raw = CHR ''['' # tag @ CHR '']'' # rest)"
proof
  assume none: "log_match raw = None"
  show "\<nexists>tag rest. tag \<noteq> [] \<and> list_all tag_char tag \<and> raw = CHR ''['' # tag @ CHR '']'' # rest"
  proof
    assume "\<exists>tag rest. tag \<noteq> [] \<and> list_all tag_char tag \<and> raw = CHR ''['' # tag @ CHR '']'' # rest"
    then obtain tag rest where t: "tag \<noteq> []" "list_all tag_char tag"
      and r: "raw = CHR ''['' # tag @ CHR '']'' # rest" by blast
    from t(2) have tw: "takeWhile tag_char (tag @ CHR '']'' # rest) = tag"
      by (simp add: takeWhile_tail close_bracket_no_tag_char list_all_iff)
    from t(2) have dw: "dropWhile tag_char (tag @ CHR '']'' # rest) = CHR '']'' # rest"
      by (simp add: dropWhile_append3 close_bracket_no_tag_char list_all_iff)
    from r t(1) tw dw have "log_match raw \<noteq> None"
      by (simp add: log_match_def)
    with none show False by simp
  qed
next
  assume no: "\<nexists>tag rest. tag \<noteq> [] \<and> list_all tag_char tag \<and> raw = CHR ''['' # tag @ CHR '']'' # rest"
  show "log_match raw = None"
  proof (rule ccontr)
    assume "log_match raw \<noteq> None"
    then obtain cs ds where raw: "raw = CHR ''['' # cs"
      and tag: "takeWhile tag_char cs \<noteq> []"
      and rest: "dropWhile tag_char cs = CHR '']'' # ds"
      by (auto simp: log_match_def Let_def split: list.splits if_splits)
    have "cs = takeWhile tag_char cs @ CHR '']'' # ds"
      using rest takeWhile_dropWhile_id [of tag_char cs] by simp
    moreover have "list_all tag_char (takeWhile tag_char cs)"
      by (simp add: list_all_iff) (meson set_takeWhileD)
    ultimately show False using no raw tag by blast
  qed
qed

text \<open>
  C8. A raw string that does not start with a bracketed tag (a \<^verbatim>\<open>[\<close>, one or more
  characters out of capitals, digits, underscore and space, a \<^verbatim>\<open>]\<close>) is parsed to
  system \<^verbatim>\<open>UNK\<close>, level INFO and the whole raw string, unmodified, as the message.
\<close>

theorem parseLogString_unmatched:
  assumes "\<nexists>tag rest. tag \<noteq> [] \<and> list_all tag_char tag \<and> raw = CHR ''['' # tag @ CHR '']'' # rest"
  shows "parseLogString raw = \<lparr>system = ''UNK'', message = raw, level = INFO\<rparr>"
proof -
  from assms have "log_match raw = None"
    by (rule iffD2 [OF log_match_None_iff])
  then show ?thesis
    by (simp add: parseLogString_def)
qed

text \<open>The spec's example: \<^verbatim>\<open>"no brackets here"\<close> has no leading tag.\<close>

theorem parseLogString_unmatched_witness:
  "(\<nexists>tag rest. tag \<noteq> [] \<and> list_all tag_char tag
        \<and> ''no brackets here'' = CHR ''['' # tag @ CHR '']'' # rest)
   \<and> parseLogString ''no brackets here''
       = \<lparr>system = ''UNK'', message = ''no brackets here'', level = INFO\<rparr>"
proof -
  have h: "\<nexists>tag rest. tag \<noteq> [] \<and> list_all tag_char tag
        \<and> ''no brackets here'' = CHR ''['' # tag @ CHR '']'' # rest"
    by simp
  from parseLogString_unmatched [OF h] h show ?thesis by blast
qed

text \<open>
  C7. When the pattern matches and the message holds, in any letter case, a CRIT keyword
  (\<^verbatim>\<open>critical\<close>, \<^verbatim>\<open>fail\<close>, \<^verbatim>\<open>error\<close>) and a WARN keyword (\<^verbatim>\<open>warning\<close>,
  \<^verbatim>\<open>detect\<close>), the level is CRIT: the CRIT test comes first.
\<close>

theorem parseLogString_crit_before_warn:
  assumes "log_match raw = Some (sys, msg)"
    and "crit_keyword msg"
    and "warn_keyword msg"
  shows "level (parseLogString raw) = CRIT"
  using assms by (simp add: parseLogString_def)

text \<open>The spec's example: \<^verbatim>\<open>"[SYS] Critical failure detected."\<close>.\<close>

theorem parseLogString_crit_before_warn_witness:
  "log_match ''[SYS] Critical failure detected.'' = Some (''SYS'', ''Critical failure detected.'')
   \<and> crit_keyword ''Critical failure detected.''
   \<and> warn_keyword ''Critical failure detected.''
   \<and> level (parseLogString ''[SYS] Critical failure detected.'') = CRIT"
proof -
  have m: "log_match ''[SYS] Critical failure detected.'' = Some (''SYS'', ''Critical failure detected.'')"
    by code_simp
  have c: "crit_keyword ''Critical failure detected.''"
    by code_simp
  have w: "warn_keyword ''Critical failure detected.''"
    by code_simp
  from parseLogString_crit_before_warn [OF m c w] m c w show ?thesis by blast
qed

section \<open>Properties of the display log\<close>

lemma slice_from_neg: "0 < k \<Longrightarrow> slice_from (- int k) xs = drop (length xs - k) xs"
  by (simp add: slice_from_def Let_def max_def nat_diff_distrib')

lemma setLogs_append_drop: "setLogs_append prev e = drop (Suc (length prev) - 50) (prev @ [e])"
proof -
  have "slice_from (- int 50) (prev @ [e]) = drop (length (prev @ [e]) - 50) (prev @ [e])"
    by (rule slice_from_neg) simp
  then show ?thesis by (simp add: setLogs_append_def MAX_LOGS_def)
qed

lemma drop_snoc_window:
  "drop (Suc (length (drop (length xs - 50) xs)) - 50) (drop (length xs - 50) xs @ [e])
     = drop (Suc (length xs) - 50) (xs @ [e])"
proof (cases "length xs \<le> 50")
  case True
  then show ?thesis by simp
next
  case False
  then have "Suc (length xs - 50) = length xs - 49" by arith
  with False show ?thesis by simp
qed

text \<open>Appending a run of entries one by one to a log that is the last 50 of \<open>xs\<close>
  leaves the last 50 of \<open>xs\<close> followed by the run.\<close>

lemma foldl_setLogs_append:
  "foldl setLogs_append (drop (length xs - 50) xs) es = drop (length xs + length es - 50) (xs @ es)"
proof (induction es arbitrary: xs)
  case Nil
  then show ?case by simp
next
  case (Cons e es)
  have "setLogs_append (drop (length xs - 50) xs) e = drop (length (xs @ [e]) - 50) (xs @ [e])"
    by (simp only: setLogs_append_drop drop_snoc_window) simp
  then show ?case using Cons.IH [of "xs @ [e]"] by simp
qed

text \<open>
  C2. An append leaves at most 50 entries in the display log, whatever it held before,
  and what it leaves is the old log followed by the new entry with entries dropped from
  the head only. Starting from the three entries set at mount, after every sequence
  \<open>es\<close> of appended entries the log holds at most 50 entries and is the initial entries
  followed by \<open>es\<close>, in that order, without the oldest ones beyond 50.
\<close>

theorem display_log_bounded:
  "length (setLogs_append prev e) \<le> 50
   \<and> setLogs_append prev e = drop (Suc (length prev) - 50) (prev @ [e])
   \<and> length (foldl setLogs_append (initialLogs t1 t2 t3) es) \<le> 50
   \<and> foldl setLogs_append (initialLogs t1 t2 t3) es
       = drop (3 + length es - 50) (initialLogs t1 t2 t3 @ es)"
proof -
  have a: "setLogs_append prev e = drop (Suc (length prev) - 50) (prev @ [e])"
    by (rule setLogs_append_drop)
  have b: "length (setLogs_append prev e) \<le> 50"
    by (simp add: a)
  have l: "length (initialLogs t1 t2 t3) = 3"
    by (simp add: initialLogs_def)
  have c: "foldl setLogs_append (initialLogs t1 t2 t3) es
       = drop (3 + length es - 50) (initialLogs t1 t2 t3 @ es)"
    using foldl_setLogs_append [of "initialLogs t1 t2 t3" es] by (simp add: l)
  have d: "length (foldl setLogs_append (initialLogs t1 t2 t3) es) \<le> 50"
    by (simp add: c l)
  from a b c d show ?thesis by blast
qed

section \<open>Properties of the adapter\<close>

lemma takeWhile_neq_all: "c \<notin> set xs \<Longrightarrow> takeWhile (\<lambda>x. x \<noteq> c) xs = xs"
  by (induction xs) auto

lemma indexOf_first: "c \<notin> set pre \<Longrightarrow> indexOf c (pre @ c # rest) = int (length pre)"
  by (simp add: indexOf_def takeWhile_tail takeWhile_neq_all)

lemma lastIndexOf_last:
  "c \<notin> set post \<Longrightarrow> lastIndexOf c (pre @ c # post) = int (length pre)"
  by (simp add: lastIndexOf_def takeWhile_tail takeWhile_neq_all)

lemma substring_span:
  "substring (int (length pre)) (int (length pre) + int (length mid)) (pre @ mid @ post) = mid"
proof -
  have a: "min (max (int (length pre)) 0) (int (length (pre @ mid @ post))) = int (length pre)"
    by simp
  have b: "min (max (int (length pre) + int (length mid)) 0) (int (length (pre @ mid @ post)))
             = int (length pre) + int (length mid)"
    by simp
  show ?thesis
    by (simp only: substring_def Let_def a b) simp
qed

lemma sanitize_wrapped:
  assumes "CHR ''['' \<notin> set pre" and "CHR '']'' \<notin> set post"
  shows "sanitize (pre @ CHR ''['' # mid @ CHR '']'' # post) = CHR ''['' # mid @ [CHR '']'']"
proof -
  let ?t = "pre @ CHR ''['' # mid @ CHR '']'' # post"
  have f: "indexOf (CHR ''['') ?t = int (length pre)"
    using assms(1) by (rule indexOf_first)
  have "lastIndexOf (CHR '']'') ((pre @ CHR ''['' # mid) @ CHR '']'' # post)
          = int (length (pre @ CHR ''['' # mid))"
    using assms(2) by (rule lastIndexOf_last)
  then have l: "lastIndexOf (CHR '']'') ?t = int (length pre) + int (length mid) + 1"
    by simp
  have "substring (int (length pre)) (int (length pre) + int (length (CHR ''['' # mid @ [CHR '']''])))
          (pre @ (CHR ''['' # mid @ [CHR '']'']) @ post) = CHR ''['' # mid @ [CHR '']'']"
    by (rule substring_span)
  then have "substring (int (length pre)) (int (length pre) + int (length mid) + 1 + 1) ?t
          = CHR ''['' # mid @ [CHR '']'']"
    by (simp add: ac_simps)
  with f l show ?thesis
    by (simp add: sanitize_def Let_def)
qed

text \<open>
  C6. When the service answers with a text that has a \<^verbatim>\<open>[\<close>, with no \<^verbatim>\<open>[\<close> before
  it, and later a \<^verbatim>\<open>]\<close>, with no \<^verbatim>\<open>]\<close> after it, the adapter cuts the text down to
  the span from that \<^verbatim>\<open>[\<close> to that \<^verbatim>\<open>]\<close> and parses the span alone: its result is the
  parsed value, or the parse-error line when the span is not JSON.
\<close>

theorem sanitize_then_parse:
  assumes "apiKey env \<noteq> []"
    and "CHR ''['' \<notin> set pre" and "CHR '']'' \<notin> set post"
    and "response env = Resolved (Some (pre @ CHR ''['' # mid @ CHR '']'' # post))"
  shows "sanitize (pre @ CHR ''['' # mid @ CHR '']'' # post) = CHR ''['' # mid @ [CHR '']'']
    \<and> fst (generateStatusBatch env ctx cnt)
      = (case JSON_parse (CHR ''['' # mid @ [CHR '']'']) of
           Some v \<Rightarrow> Inr \<lparr>logs = v, error = False\<rparr>
         | None \<Rightarrow> Inr \<lparr>logs = JArray [JString ''[WARN] DATA PARSING ERROR. RECALIBRATING...''],
                          error = True\<rparr>)"
proof -
  have s: "sanitize (pre @ CHR ''['' # mid @ CHR '']'' # post) = CHR ''['' # mid @ [CHR '']'']"
    using assms(2,3) by (rule sanitize_wrapped)
  show ?thesis
    using assms(1,4) by (simp add: generateStatusBatch_def Let_def s split: option.splits)
qed

text \<open>The spec's example: the wrapped answer gives exactly the two lines.\<close>

theorem sanitize_then_parse_witness:
  \<open>apiKey \<lparr>API_KEY = Some ''key'', SEED_MESSAGES = [], seedShuffle = [], fallbackShuffle = [],
            response = Resolved (Some ''Sure! ["[NAV] ok", "[ENG] go"] thanks'')\<rparr> \<noteq> []
   \<and> CHR ''['' \<notin> set ''Sure! '' \<and> CHR '']'' \<notin> set '' thanks''
   \<and> sanitize ''Sure! ["[NAV] ok", "[ENG] go"] thanks'' = ''["[NAV] ok", "[ENG] go"]''
   \<and> fst (generateStatusBatch
        \<lparr>API_KEY = Some ''key'', SEED_MESSAGES = [], seedShuffle = [], fallbackShuffle = [],
          response = Resolved (Some ''Sure! ["[NAV] ok", "[ENG] go"] thanks'')\<rparr> [] 1)
      = Inr \<lparr>logs = JArray [JString ''[NAV] ok'', JString ''[ENG] go''], error = False\<rparr>\<close>
proof -
  let ?env = \<open>\<lparr>API_KEY = Some ''key'', SEED_MESSAGES = [], seedShuffle = [], fallbackShuffle = [],
            response = Resolved (Some ''Sure! ["[NAV] ok", "[ENG] go"] thanks'')\<rparr>\<close>
  have k: "apiKey ?env \<noteq> []" by (simp add: apiKey_def)
  have p1: "CHR ''['' \<notin> set ''Sure! ''" by simp
  have p2: "CHR '']'' \<notin> set '' thanks''" by simp
  have r: \<open>response ?env = Resolved (Some (''Sure! '' @ CHR ''['' # ''"[NAV] ok", "[ENG] go"'' @ CHR '']'' # '' thanks''))\<close>
    by simp
  have j: \<open>JSON_parse (CHR ''['' # ''"[NAV] ok", "[ENG] go"'' @ [CHR '']''])
      = Some (JArray [JString ''[NAV] ok'', JString ''[ENG] go''])\<close>
    by code_simp
  from sanitize_then_parse [OF k p1 p2 r, of "[]" 1] j k p1 p2 show ?thesis
    by simp
qed

text \<open>
  C9. With no credential configured (the variable unset or empty) the adapter answers
  with the fixed pair of diagnostic lines and \<^verbatim>\<open>error = true\<close>, and sends no request to
  the service, whatever the service would have answered.
\<close>

theorem no_credential_no_request:
  assumes "API_KEY env = None \<or> API_KEY env = Some []"
  shows "generateStatusBatch env ctx cnt
    = (Inr \<lparr>logs = JArray [JString ''[SYS] API KEY MISSING. PLEASE CONFIGURE SleighOS ENV.'',
                           JString ''[ERR] MAGIC FLUX DISCONNECTED.''],
            error = True\<rparr>, [])"
  using assms by (auto simp: generateStatusBatch_def apiKey_def)

theorem no_credential_no_request_witness:
  \<open>(API_KEY \<lparr>API_KEY = None, SEED_MESSAGES = [''[NAV] Route clear.''],
              seedShuffle = [''[NAV] Route clear.''], fallbackShuffle = [''[NAV] Route clear.''],
              response = Resolved (Some ''["[NAV] ok"]'')\<rparr> = None
     \<or> API_KEY \<lparr>API_KEY = None, SEED_MESSAGES = [''[NAV] Route clear.''],
              seedShuffle = [''[NAV] Route clear.''], fallbackShuffle = [''[NAV] Route clear.''],
              response = Resolved (Some ''["[NAV] ok"]'')\<rparr> = Some [])
   \<and> generateStatusBatch
        \<lparr>API_KEY = None, SEED_MESSAGES = [''[NAV] Route clear.''],
          seedShuffle = [''[NAV] Route clear.''], fallbackShuffle = [''[NAV] Route clear.''],
          response = Resolved (Some ''["[NAV] ok"]'')\<rparr> [''[SYS] boot''] 1
      = (Inr \<lparr>logs = JArray [JString ''[SYS] API KEY MISSING. PLEASE CONFIGURE SleighOS ENV.'',
                             JString ''[ERR] MAGIC FLUX DISCONNECTED.''],
              error = True\<rparr>, [])\<close>
proof -
  let ?env = \<open>\<lparr>API_KEY = None, SEED_MESSAGES = [''[NAV] Route clear.''],
              seedShuffle = [''[NAV] Route clear.''], fallbackShuffle = [''[NAV] Route clear.''],
              response = Resolved (Some ''["[NAV] ok"]'')\<rparr>\<close>
  have h: "API_KEY ?env = None \<or> API_KEY ?env = Some []" by simp
  from no_credential_no_request [OF h, of "[''[SYS] boot'']" 1] h show ?thesis
    by blast
qed

text \<open>
  C10. With a credential, when the call to the service succeeds and the text of the
  response is absent or empty, the adapter answers with no lines at all and
  \<^verbatim>\<open>error = false\<close>.
\<close>

theorem empty_response_silent:
  assumes "apiKey env \<noteq> []"
    and "response env = Resolved None \<or> response env = Resolved (Some [])"
  shows "fst (generateStatusBatch env ctx cnt) = Inr \<lparr>logs = JArray [], error = False\<rparr>"
  using assms by (auto simp: generateStatusBatch_def Let_def)

theorem empty_response_silent_witness:
  "apiKey \<lparr>API_KEY = Some ''key'', SEED_MESSAGES = [''[NAV] Route clear.''],
              seedShuffle = [''[NAV] Route clear.''], fallbackShuffle = [''[NAV] Route clear.''],
              response = Resolved (Some [])\<rparr> \<noteq> []
   \<and> fst (generateStatusBatch
        \<lparr>API_KEY = Some ''key'', SEED_MESSAGES = [''[NAV] Route clear.''],
          seedShuffle = [''[NAV] Route clear.''], fallbackShuffle = [''[NAV] Route clear.''],
          response = Resolved (Some [])\<rparr> [''[SYS] boot''] 1)
      = Inr \<lparr>logs = JArray [], error = False\<rparr>"
proof -
  let ?env = "\<lparr>API_KEY = Some ''key'', SEED_MESSAGES = [''[NAV] Route clear.''],
              seedShuffle = [''[NAV] Route clear.''], fallbackShuffle = [''[NAV] Route clear.''],
              response = Resolved (Some [])\<rparr>"
  have k: "apiKey ?env \<noteq> []" by (simp add: apiKey_def)
  have r: "response ?env = Resolved None \<or> response ?env = Resolved (Some [])" by simp
  from empty_response_silent [OF k r, of "[''[SYS] boot'']" 1] k show ?thesis
    by blast
qed

lemma length_slice_to: "0 \<le> k \<Longrightarrow> length (slice_to k xs) = min (nat k) (length xs)"
  by (simp add: slice_to_def Let_def min_def)

lemma mset_slice_to: "mset (slice_to k xs) \<subseteq># mset xs"
proof -
  have "mset (take n xs) \<subseteq># mset xs" for n
    by (metis append_take_drop_id mset_append mset_subset_eq_add_left)
  then show ?thesis by (simp add: slice_to_def Let_def)
qed

text \<open>
  C5, as amended. When the request fails with a value that \<^verbatim>\<open>JSON.stringify\<close> renders as a
  text, the call returns a batch and raises nothing. If the text has a rate-limit mark
  (\<^verbatim>\<open>429\<close> or \<^verbatim>\<open>RESOURCE_EXHAUSTED\<close>), the batch has, for a count that is not negative,
  \<^verbatim>\<open>error = true\<close> and the first \<open>count\<close> lines of a rearranged copy of the seed corpus:
  that is \<open>count\<close> lines when the corpus has that many and the whole corpus otherwise,
  each line taken from the corpus no more often than it occurs there. Otherwise the
  batch is the single interference line with \<^verbatim>\<open>error = true\<close>.
\<close>

theorem request_failure_fallback:
  assumes "apiKey env \<noteq> []"
    and "response env = Rejected (Text errorMessage)"
    and "mset (fallbackShuffle env) = mset (SEED_MESSAGES env)"
    and "0 \<le> cnt"
  shows "(rate_limited errorMessage \<longrightarrow>
            (\<exists>ls. fst (generateStatusBatch env ctx cnt)
                     = Inr \<lparr>logs = JArray (map JString ls), error = True\<rparr>
                 \<and> length ls = min (nat cnt) (length (SEED_MESSAGES env))
                 \<and> mset ls \<subseteq># mset (SEED_MESSAGES env)))
       \<and> (\<not> rate_limited errorMessage \<longrightarrow>
            fst (generateStatusBatch env ctx cnt)
              = Inr \<lparr>logs = JArray [JString ''[ERR] INTERFERENCE DETECTED IN SECTOR 12. RETRYING...''],
                     error = True\<rparr>)"
proof (intro conjI impI)
  assume rl: "rate_limited errorMessage"
  let ?ls = "slice_to cnt (fallbackShuffle env)"
  have r: "fst (generateStatusBatch env ctx cnt)
      = Inr \<lparr>logs = JArray (map JString ?ls), error = True\<rparr>"
    using assms(1,2) rl by (simp add: generateStatusBatch_def Let_def)
  have "length (fallbackShuffle env) = length (SEED_MESSAGES env)"
    using assms(3) by (rule mset_eq_length)
  then have n: "length ?ls = min (nat cnt) (length (SEED_MESSAGES env))"
    using assms(4) by (simp add: length_slice_to)
  have m: "mset ?ls \<subseteq># mset (SEED_MESSAGES env)"
    using mset_slice_to [of cnt "fallbackShuffle env"] assms(3) by simp
  from r n m
  show "\<exists>ls. fst (generateStatusBatch env ctx cnt)
              = Inr \<lparr>logs = JArray (map JString ls), error = True\<rparr>
           \<and> length ls = min (nat cnt) (length (SEED_MESSAGES env))
           \<and> mset ls \<subseteq># mset (SEED_MESSAGES env)"
    by blast
next
  assume "\<not> rate_limited errorMessage"
  then show "fst (generateStatusBatch env ctx cnt)
      = Inr \<lparr>logs = JArray [JString ''[ERR] INTERFERENCE DETECTED IN SECTOR 12. RETRYING...''],
             error = True\<rparr>"
    using assms(1,2) by (simp add: generateStatusBatch_def Let_def)
qed

theorem request_failure_fallback_witness:
  \<open>apiKey \<lparr>API_KEY = Some ''key'', SEED_MESSAGES = [''[NAV] Route clear.'', ''[ENG] Thrust nominal.''],
          seedShuffle = [''[NAV] Route clear.'', ''[ENG] Thrust nominal.''],
          fallbackShuffle = [''[ENG] Thrust nominal.'', ''[NAV] Route clear.''],
          response = Rejected (Text ''{"name":"ApiError","status":429}'')\<rparr> \<noteq> []
   \<and> mset [''[ENG] Thrust nominal.'', ''[NAV] Route clear.'']
       = mset [''[NAV] Route clear.'', ''[ENG] Thrust nominal.'']
   \<and> rate_limited ''{"name":"ApiError","status":429}''
   \<and> (\<exists>ls. fst (generateStatusBatch
        \<lparr>API_KEY = Some ''key'', SEED_MESSAGES = [''[NAV] Route clear.'', ''[ENG] Thrust nominal.''],
          seedShuffle = [''[NAV] Route clear.'', ''[ENG] Thrust nominal.''],
          fallbackShuffle = [''[ENG] Thrust nominal.'', ''[NAV] Route clear.''],
          response = Rejected (Text ''{"name":"ApiError","status":429}'')\<rparr> [''[SYS] boot''] 1)
         = Inr \<lparr>logs = JArray (map JString ls), error = True\<rparr> \<and> length ls = 1)
   \<and> \<not> rate_limited ''{}''
   \<and> fst (generateStatusBatch
        \<lparr>API_KEY = Some ''key'', SEED_MESSAGES = [''[NAV] Route clear.'', ''[ENG] Thrust nominal.''],
          seedShuffle = [''[NAV] Route clear.'', ''[ENG] Thrust nominal.''],
          fallbackShuffle = [''[ENG] Thrust nominal.'', ''[NAV] Route clear.''],
          response = Rejected (Text ''{}'')\<rparr> [''[SYS] boot''] 1)
      = Inr \<lparr>logs = JArray [JString ''[ERR] INTERFERENCE DETECTED IN SECTOR 12. RETRYING...''],
             error = True\<rparr>\<close>
proof -
  let ?env = \<open>\<lparr>API_KEY = Some ''key'', SEED_MESSAGES = [''[NAV] Route clear.'', ''[ENG] Thrust nominal.''],
          seedShuffle = [''[NAV] Route clear.'', ''[ENG] Thrust nominal.''],
          fallbackShuffle = [''[ENG] Thrust nominal.'', ''[NAV] Route clear.''],
          response = Rejected (Text ''{"name":"ApiError","status":429}'')\<rparr>\<close>
  let ?env' = \<open>\<lparr>API_KEY = Some ''key'', SEED_MESSAGES = [''[NAV] Route clear.'', ''[ENG] Thrust nominal.''],
          seedShuffle = [''[NAV] Route clear.'', ''[ENG] Thrust nominal.''],
          fallbackShuffle = [''[ENG] Thrust nominal.'', ''[NAV] Route clear.''],
          response = Rejected (Text ''{}'')\<rparr>\<close>
  have k: "apiKey ?env \<noteq> []" "apiKey ?env' \<noteq> []" by (simp_all add: apiKey_def)
  have r: \<open>response ?env = Rejected (Text ''{"name":"ApiError","status":429}'')\<close>
      \<open>response ?env' = Rejected (Text ''{}'')\<close> by simp_all
  have m0: "mset [''[ENG] Thrust nominal.'', ''[NAV] Route clear.'']
       = mset [''[NAV] Route clear.'', ''[ENG] Thrust nominal.'']"
    by (simp add: add.commute)
  have m: "mset (fallbackShuffle ?env) = mset (SEED_MESSAGES ?env)"
      "mset (fallbackShuffle ?env') = mset (SEED_MESSAGES ?env')"
    using m0 by simp_all
  have c: "(0::int) \<le> 1" by simp
  have rl: \<open>rate_limited ''{"name":"ApiError","status":429}''\<close> by code_simp
  have nrl: \<open>\<not> rate_limited ''{}''\<close> by code_simp
  from request_failure_fallback [OF k(1) r(1) m(1) c, of "[''[SYS] boot'']"] rl
  have a: \<open>\<exists>ls. fst (generateStatusBatch ?env [''[SYS] boot''] 1)
         = Inr \<lparr>logs = JArray (map JString ls), error = True\<rparr> \<and> length ls = 1\<close>
    by auto
  from request_failure_fallback [OF k(2) r(2) m(2) c, of "[''[SYS] boot'']"] nrl
  have b: \<open>fst (generateStatusBatch ?env' [''[SYS] boot''] 1)
      = Inr \<lparr>logs = JArray [JString ''[ERR] INTERFERENCE DETECTED IN SECTOR 12. RETRYING...''],
             error = True\<rparr>\<close>
    by blast
  from k(1) m0 rl a nrl b show ?thesis by blast
qed

text \<open>Whatever the corpus and whatever order the shuffle leaves, a rate-limited call
  asked for one line more than the corpus holds answers with the whole corpus.\<close>

lemma fallback_one_line_short:
  assumes "apiKey env \<noteq> []"
    and "response env = Rejected (Text errorMessage)"
    and "rate_limited errorMessage"
    and "mset (fallbackShuffle env) = mset (SEED_MESSAGES env)"
  shows "fst (generateStatusBatch env ctx (int (length (SEED_MESSAGES env)) + 1))
           = Inr \<lparr>logs = JArray (map JString (fallbackShuffle env)), error = True\<rparr>"
    and "length (fallbackShuffle env) = length (SEED_MESSAGES env)"
proof -
  show n: "length (fallbackShuffle env) = length (SEED_MESSAGES env)"
    using assms(4) by (rule mset_eq_length)
  then have "slice_to (int (length (SEED_MESSAGES env)) + 1) (fallbackShuffle env) = fallbackShuffle env"
    by (simp add: slice_to_def Let_def)
  then show "fst (generateStatusBatch env ctx (int (length (SEED_MESSAGES env)) + 1))
           = Inr \<lparr>logs = JArray (map JString (fallbackShuffle env)), error = True\<rparr>"
    using assms(1-3) by (simp add: generateStatusBatch_def Let_def)
qed

text \<open>
  C5, as stated, fails in two ways, whatever the seed corpus is. Asked for one line more
  than the corpus holds, a rate-limited call answers with the whole corpus, one line
  short of the count (here with the shuffle leaving the order as it is). And when
  \<^verbatim>\<open>JSON.stringify\<close> throws on the value of the failure, the call raises that error to its
  caller instead of answering with the interference line.
\<close>

theorem request_failure_fallback_counterexample:
  \<open>\<forall>seed.
     rate_limited ''{"name":"ApiError","status":429}''
     \<and> fst (generateStatusBatch
          \<lparr>API_KEY = Some ''key'', SEED_MESSAGES = seed, seedShuffle = seed, fallbackShuffle = seed,
            response = Rejected (Text ''{"name":"ApiError","status":429}'')\<rparr>
          [] (int (length seed) + 1))
        = Inr \<lparr>logs = JArray (map JString seed), error = True\<rparr>
     \<and> length (map JString seed) < nat (int (length seed) + 1)
     \<and> fst (generateStatusBatch
          \<lparr>API_KEY = Some ''key'', SEED_MESSAGES = seed, seedShuffle = seed, fallbackShuffle = seed,
            response = Rejected Throws\<rparr> [] 1)
        = Inl StringifyTypeError\<close>
proof
  fix seed :: "string list"
  have rl: \<open>rate_limited ''{"name":"ApiError","status":429}''\<close>
    by code_simp
  have sl: "slice_to (int (length seed) + 1) seed = seed"
    by (simp add: slice_to_def Let_def)
  have a: \<open>fst (generateStatusBatch
          \<lparr>API_KEY = Some ''key'', SEED_MESSAGES = seed, seedShuffle = seed, fallbackShuffle = seed,
            response = Rejected (Text ''{"name":"ApiError","status":429}'')\<rparr>
          [] (int (length seed) + 1))
        = Inr \<lparr>logs = JArray (map JString seed), error = True\<rparr>\<close>
    using rl by (simp add: generateStatusBatch_def apiKey_def Let_def sl)
  have b: "length (map JString seed) < nat (int (length seed) + 1)"
    by simp
  have c: "fst (generateStatusBatch
          \<lparr>API_KEY = Some ''key'', SEED_MESSAGES = seed, seedShuffle = seed, fallbackShuffle = seed,
            response = Rejected Throws\<rparr> [] 1)
        = Inl StringifyTypeError"
    by (simp add: generateStatusBatch_def apiKey_def Let_def)
  from rl a b c
  show \<open>rate_limited ''{"name":"ApiError","status":429}''
     \<and> fst (generateStatusBatch
          \<lparr>API_KEY = Some ''key'', SEED_MESSAGES = seed, seedShuffle = seed, fallbackShuffle = seed,
            response = Rejected (Text ''{"name":"ApiError","status":429}'')\<rparr>
          [] (int (length seed) + 1))
        = Inr \<lparr>logs = JArray (map JString seed), error = True\<rparr>
     \<and> length (map JString seed) < nat (int (length seed) + 1)
     \<and> fst (generateStatusBatch
          \<lparr>API_KEY = Some ''key'', SEED_MESSAGES = seed, seedShuffle = seed, fallbackShuffle = seed,
            response = Rejected Throws\<rparr> [] 1)
        = Inl StringifyTypeError\<close>
    by blast
qed

section \<open>Properties of the scheduler\<close>

lemma fetchMoreLogs_live:
  "\<not> isLoadingRef s \<Longrightarrow> useGeminiNext s \<Longrightarrow>
   fetchMoreLogs m s =
     s\<lparr>isLoading := True,
       awaiting := awaiting s @ [map (\<lambda>l. ''['' @ system l @ ''] '' @ message l) (slice_from (- 5) (logsRef s))]\<rparr>"
  by (simp add: fetchMoreLogs_def Let_def)

lemma fetchMoreLogs_seed:
  "\<not> isLoadingRef s \<Longrightarrow> \<not> useGeminiNext s \<Longrightarrow>
   fetchMoreLogs m s = s\<lparr>isLoading := False, buffer := buffer s @ [m], useGeminiNext := True\<rparr>"
  by (simp add: fetchMoreLogs_def Let_def)

lemma fetchMoreLogs_guarded: "isLoadingRef s \<Longrightarrow> fetchMoreLogs m s = s"
  by (simp add: fetchMoreLogs_def)

lemma fetchMoreLogs_isLoadingRef: "isLoadingRef (fetchMoreLogs m s) = isLoadingRef s"
  by (simp add: fetchMoreLogs_def Let_def)

text \<open>
  A tick on a running scheduler whose buffer is empty, with the guard ref open and the
  live source next, starts two fetch cycles: the first call sets the state
  \<open>isLoading\<close>, not the ref that the guard of the second call reads.
\<close>

lemma tick_starts_two_fetches:
  assumes "isRunning s" and "bufferRef s = []" and "\<not> isLoadingRef s" and "useGeminiNext s"
  shows "length (awaiting (processNextMessage e s)) = length (awaiting s) + 2"
proof -
  let ?s1 = "fetchMoreLogs (randomMsg1 e) s"
  have r1: "\<not> isLoadingRef ?s1" using assms(3) by (simp add: fetchMoreLogs_isLoadingRef)
  have g1: "useGeminiNext ?s1" using assms(3,4) by (simp add: fetchMoreLogs_live)
  have a1: "length (awaiting ?s1) = length (awaiting s) + 1"
    using assms(3,4) by (simp add: fetchMoreLogs_live)
  have a2: "length (awaiting (fetchMoreLogs (randomMsg2 e) ?s1)) = length (awaiting ?s1) + 1"
    using r1 g1 by (simp add: fetchMoreLogs_live [of ?s1])
  show ?thesis
    using assms(1,2) r1 a1 a2 by (simp add: processNextMessage_def Let_def)
qed

text \<open>
  C1 fails on the code. When the component mounts, the fetch of the initial-seed effect
  and the two fetches of the first tick all pass the guard: three fetch cycles are
  suspended at the adapter call together, and the guard ref is still open. The same
  first tick alone, on the initial state, leaves two in flight.
\<close>

theorem mount_overlapping_fetches:
  "length (awaiting (App_mount t1 t2 t3 randomMsg0 e)) = 3
   \<and> \<not> isLoadingRef (App_mount t1 t2 t3 randomMsg0 e)
   \<and> length (awaiting (processNextMessage e (sync_refs initial_state))) = 2"
proof -
  let ?s1 = "(sync_refs initial_state)\<lparr>logs_state := initialLogs t1 t2 t3\<rparr>"
  let ?s2 = "fetchMoreLogs randomMsg0 ?s1"
  have q: "\<not> isLoadingRef ?s1" "useGeminiNext ?s1" "awaiting ?s1 = []"
    by (simp_all add: sync_refs_def initial_state_def)
  have s2: "isRunning ?s2" "bufferRef ?s2 = []" "\<not> isLoadingRef ?s2" "useGeminiNext ?s2"
      "length (awaiting ?s2) = 1"
    by (simp_all add: fetchMoreLogs_live q) (simp_all add: sync_refs_def initial_state_def)
  have a: "length (awaiting (App_mount t1 t2 t3 randomMsg0 e)) = 3"
    using tick_starts_two_fetches [OF s2(1-4), of e] s2(5) by (simp add: App_mount_def Let_def)
  have b: "\<not> isLoadingRef (App_mount t1 t2 t3 randomMsg0 e)"
    using s2(1-3) by (simp add: App_mount_def Let_def processNextMessage_def fetchMoreLogs_isLoadingRef)
  have s0: "isRunning (sync_refs initial_state)" "bufferRef (sync_refs initial_state) = []"
      "\<not> isLoadingRef (sync_refs initial_state)" "useGeminiNext (sync_refs initial_state)"
      "awaiting (sync_refs initial_state) = []"
    by (simp_all add: sync_refs_def initial_state_def)
  have c: "length (awaiting (processNextMessage e (sync_refs initial_state))) = 2"
    using tick_starts_two_fetches [OF s0(1-4), of e] s0(5) by simp
  from a b c show ?thesis by blast
qed

lemma fetchMoreLogs_resume_toggle:
  "i < length (awaiting s) \<Longrightarrow>
   useGeminiNext (fetchMoreLogs_resume i ls err s) = (\<not> useGeminiNext s)"
  by (simp add: fetchMoreLogs_resume_def)

lemma fetchMoreLogs_rejected_keeps:
  "useGeminiNext (fetchMoreLogs_rejected i s) = useGeminiNext s"
  "isLoading (fetchMoreLogs_rejected i s) = isLoading s"
  by (simp_all add: fetchMoreLogs_rejected_def)

text \<open>The state the mount leaves: three live cycles suspended, each called with the
  empty context, nothing in the buffer, the flag still at the live source.\<close>

lemma App_mount_state:
  "App_mount t1 t2 t3 randomMsg0 e =
     \<lparr>logs_state = initialLogs t1 t2 t3, isRunning = True, buffer = [], isLoading = True,
      aiError = False, logsRef = [], bufferRef = [], isLoadingRef = False, timeoutRef = True,
      useGeminiNext = True, awaiting = [[], [], []]\<rparr>"
  by (simp add: App_mount_def processNextMessage_def fetchMoreLogs_def sync_refs_def
      initial_state_def slice_from_def Let_def)

text \<open>
  C4 fails on the code. The three fetch cycles that the mount starts all read the flag
  before any of them has toggled it, so all three take the live turn: when they have
  completed with the batches \<open>a1\<close>, \<open>a2\<close>, \<open>a3\<close>, the buffer holds these three batches
  and no seed line, three live turns in a row (the flag itself has been negated three
  times). And a cycle whose adapter call raises ends without the toggle: the flag stays
  at the live source and \<open>isLoading\<close> stays set.
\<close>

theorem mount_three_live_turns:
  "awaiting (App_mount t1 t2 t3 randomMsg0 e) = [[], [], []]
   \<and> buffer (App_mount t1 t2 t3 randomMsg0 e) = []
   \<and> useGeminiNext (App_mount t1 t2 t3 randomMsg0 e)
   \<and> buffer (fetchMoreLogs_resume 0 a3 r3 (fetchMoreLogs_resume 0 a2 r2
        (fetchMoreLogs_resume 0 a1 r1 (App_mount t1 t2 t3 randomMsg0 e)))) = a1 @ a2 @ a3
   \<and> awaiting (fetchMoreLogs_resume 0 a3 r3 (fetchMoreLogs_resume 0 a2 r2
        (fetchMoreLogs_resume 0 a1 r1 (App_mount t1 t2 t3 randomMsg0 e)))) = []
   \<and> \<not> useGeminiNext (fetchMoreLogs_resume 0 a3 r3 (fetchMoreLogs_resume 0 a2 r2
        (fetchMoreLogs_resume 0 a1 r1 (App_mount t1 t2 t3 randomMsg0 e))))
   \<and> useGeminiNext (fetchMoreLogs_rejected 0 (App_mount t1 t2 t3 randomMsg0 e))
   \<and> isLoading (fetchMoreLogs_rejected 0 (App_mount t1 t2 t3 randomMsg0 e))"
proof -
  let ?s = "App_mount t1 t2 t3 randomMsg0 e"
  let ?s3 = "fetchMoreLogs_resume 0 a3 r3 (fetchMoreLogs_resume 0 a2 r2 (fetchMoreLogs_resume 0 a1 r1 ?s))"
  have m: "awaiting ?s = [[], [], []]" "buffer ?s = []" "useGeminiNext ?s" "isLoading ?s"
    by (simp_all add: App_mount_state)
  have s3: "buffer ?s3 = a1 @ a2 @ a3" "awaiting ?s3 = []" "\<not> useGeminiNext ?s3"
    by (simp_all add: App_mount_state fetchMoreLogs_resume_def)
  have rj: "useGeminiNext (fetchMoreLogs_rejected 0 ?s)" "isLoading (fetchMoreLogs_rejected 0 ?s)"
    using m(3,4) by (simp_all add: fetchMoreLogs_rejected_keeps)
  from m(1-3) s3 rj show ?thesis by blast
qed

text \<open>
  C3, as amended. A tick on a running scheduler with a line in the buffer appends one
  entry, and the id of that entry is the (at most nine) characters after the first two
  of the base-36 text of the tick's random draw. The ids of two entries differ exactly
  when those characters of their two draws differ.
\<close>

theorem tick_entry_id:
  assumes "isRunning s" and "bufferRef s \<noteq> []"
  shows "logs_state (processNextMessage e s)
           = setLogs_append (logs_state s) (newLog_of e (hd (bufferRef s)))
    \<and> last (logs_state (processNextMessage e s)) = newLog_of e (hd (bufferRef s))
    \<and> id_str (newLog_of e (hd (bufferRef s))) = take 9 (drop 2 (random36 e))
    \<and> (id_str (newLog_of e raw) \<noteq> id_str (newLog_of e' raw')
         \<longleftrightarrow> take 9 (drop 2 (random36 e)) \<noteq> take 9 (drop 2 (random36 e')))"
proof -
  let ?n = "newLog_of e (hd (bufferRef s))"
  let ?s1 = "s\<lparr>buffer := slice_from 1 (bufferRef s),
               logs_state := setLogs_append (logs_state s) ?n\<rparr>"
  have ref: "isLoadingRef (fetchMoreLogs (randomMsg2 e) ?s1) = isLoadingRef ?s1"
    by (rule fetchMoreLogs_isLoadingRef)
  have keep: "logs_state (fetchMoreLogs m t) = logs_state t" for m t
    by (simp add: fetchMoreLogs_def Let_def)
  have a: "logs_state (processNextMessage e s) = setLogs_append (logs_state s) ?n"
    using assms by (simp add: processNextMessage_def Let_def keep)
  have "setLogs_append (logs_state s) ?n = drop (Suc (length (logs_state s)) - 50) (logs_state s @ [?n])"
    by (rule setLogs_append_drop)
  then have b: "last (setLogs_append (logs_state s) ?n) = ?n"
    by simp
  have c: "id_str (newLog_of e r) = take 9 (drop 2 (random36 e))" for e r
    by (simp add: newLog_of_def Let_def substr_def)
  from a b c show ?thesis by simp
qed

theorem tick_entry_id_witness:
  "isRunning (sync_refs (initial_state\<lparr>buffer := [''[NAV] Waypoint acquired.'']\<rparr>))
   \<and> bufferRef (sync_refs (initial_state\<lparr>buffer := [''[NAV] Waypoint acquired.'']\<rparr>)) \<noteq> []
   \<and> last (logs_state (processNextMessage
        \<lparr>random36 = ''0.4fzyo82mvyr'', now = ''12:00:00.000'', randomMsg1 = ''[NAV] Route clear.'',
          randomMsg2 = ''[ENG] Thrust nominal.''\<rparr>
        (sync_refs (initial_state\<lparr>buffer := [''[NAV] Waypoint acquired.'']\<rparr>))))
      = \<lparr>system = ''NAV'', message = ''Waypoint acquired.'', level = INFO,
         id_str = ''4fzyo82mv'', timestamp = ''12:00:00.000''\<rparr>"
proof -
  let ?s = "sync_refs (initial_state\<lparr>buffer := [''[NAV] Waypoint acquired.'']\<rparr>)"
  let ?e = "\<lparr>random36 = ''0.4fzyo82mvyr'', now = ''12:00:00.000'', randomMsg1 = ''[NAV] Route clear.'',
          randomMsg2 = ''[ENG] Thrust nominal.''\<rparr>"
  have r: "isRunning ?s" by (simp add: sync_refs_def initial_state_def)
  have b: "bufferRef ?s = [''[NAV] Waypoint acquired.'']" by (simp add: sync_refs_def initial_state_def)
  then have b': "bufferRef ?s \<noteq> []" by simp
  have n: "newLog_of ?e ''[NAV] Waypoint acquired.''
      = \<lparr>system = ''NAV'', message = ''Waypoint acquired.'', level = INFO,
         id_str = ''4fzyo82mv'', timestamp = ''12:00:00.000''\<rparr>"
    by code_simp
  from tick_entry_id [OF r b', of ?e]
  have "last (logs_state (processNextMessage ?e ?s)) = newLog_of ?e (hd (bufferRef ?s))"
    by (rule conjunct1 [OF conjunct2])
  then have "last (logs_state (processNextMessage ?e ?s)) = newLog_of ?e ''[NAV] Waypoint acquired.''"
    by (simp only: b list.sel)
  from this n have "last (logs_state (processNextMessage ?e ?s))
      = \<lparr>system = ''NAV'', message = ''Waypoint acquired.'', level = INFO,
         id_str = ''4fzyo82mv'', timestamp = ''12:00:00.000''\<rparr>"
    by (rule trans)
  with r b' show ?thesis by (intro conjI)
qed

text \<open>
  C3, as stated, fails: nothing but the random draw decides the id. Two ticks whose
  draws are both 0.5 (\<^verbatim>\<open>"0.i"\<close> in base 36) append two different entries with the
  same id.
\<close>

theorem unique_ids_counterexample:
  "logs_state
     (processNextMessage
        \<lparr>random36 = ''0.i'', now = ''12:00:02.500'', randomMsg1 = ''[NAV] Route clear.'',
          randomMsg2 = ''[ENG] Thrust nominal.''\<rparr>
        (sync_refs
           (processNextMessage
              \<lparr>random36 = ''0.i'', now = ''12:00:00.000'', randomMsg1 = ''[NAV] Route clear.'',
                randomMsg2 = ''[ENG] Thrust nominal.''\<rparr>
              (sync_refs (initial_state\<lparr>buffer := [''[NAV] Waypoint acquired.'',
                                                     ''[GIFT] Payload secured.'',
                                                     ''[ELF] Shift change.'']\<rparr>)))))
   = [\<lparr>system = ''NAV'', message = ''Waypoint acquired.'', level = INFO,
       id_str = ''i'', timestamp = ''12:00:00.000''\<rparr>,
      \<lparr>system = ''GIFT'', message = ''Payload secured.'', level = INFO,
       id_str = ''i'', timestamp = ''12:00:02.500''\<rparr>]"
  by code_simp

end
